theory Spec2Isabelle
  imports Complex_Main "HOL-Library.Multiset" "HOL-Library.List_Lexorder" "HOL-Library.Char_ord"
begin

section \<open>Solar plant performance analysis: the data pipeline of solar_analysis.py\<close>

text \<open>
  The script reads performance-ratio (PR) and irradiance (GHI) CSV files, joins them on
  their Date column, derives a rolling mean, a budget line and summary statistics, and
  draws a chart. The embedding keeps the script's two functions \<open>process_data\<close> and
  \<open>create_visualization\<close>, its helpers \<open>get_color\<close> and \<open>get_ghi_range\<close>, and
  \<open>main\<close>. The pandas operations the script calls are written out as list functions,
  each named after the call it stands for.

  Conventions of the embedding:
  \<^item> a pandas Timestamp is an \<open>int\<close>, the number of nanoseconds since the epoch
    (the unit pandas stores); NaT, the result of \<open>min\<close> or \<open>max\<close> of an empty column,
    is \<open>None\<close>;
  \<^item> a float64 cell is a \<open>real\<close>; NaN, the value of an undefined mean, is \<open>None\<close>.
    Cells read from the files are taken to hold numbers and dates, not missing values;
  \<^item> a DataFrame is the list of its rows, in row order;
  \<^item> an exception is the \<open>Inl\<close> branch of a sum.
\<close>

subsection \<open>Values, errors, rows\<close>

type_synonym timestamp = int

definition ns_per_day :: int where
  "ns_per_day = 86400000000000"

text \<open>\<open>timedelta(days=n)\<close>.\<close>

definition timedelta_days :: "int \<Rightarrow> int" where
  "timedelta_days n = n * ns_per_day"

datatype py_error =
    ValueError        \<comment> \<open>\<open>pd.concat\<close> of an empty list: "No objects to concatenate"\<close>
  | ReadError         \<comment> \<open>\<open>pd.read_csv\<close> could not read the file as the expected table\<close>
  | DateParseError    \<comment> \<open>\<open>pd.to_datetime\<close> could not parse a date text\<close>

text \<open>Sequencing of steps that may raise: the first exception ends the run.\<close>

definition and_then :: "py_error + 'a \<Rightarrow> ('a \<Rightarrow> py_error + 'b) \<Rightarrow> py_error + 'b" where
  "and_then r f = (case r of Inl e \<Rightarrow> Inl e | Inr x \<Rightarrow> f x)"

text \<open>A row of a CSV file as read: the text of its Date cell and its numeric cell.\<close>

type_synonym raw_row = "string \<times> real"

text \<open>The frame \<open>process_data\<close> returns: the columns Date, GHI, PR.\<close>

record merged_row =
  Date :: timestamp
  GHI :: real
  PR :: real

text \<open>The frame \<open>create_visualization\<close> returns: the columns it has added.\<close>

record derived_row = merged_row +
  PR_30MA :: "real option"
  days_from_start :: int
  years_from_start :: real
  budget_line :: real
  color :: string
  year :: int

subsection \<open>The pandas operations the script calls\<close>

text \<open>\<open>pd.concat(frames, ignore_index=True)\<close>: raises on an empty list of frames.\<close>

definition pd_concat :: "'a list list \<Rightarrow> py_error + 'a list" where
  "pd_concat frames = (if frames = [] then Inl ValueError else Inr (concat frames))"

text \<open>
  \<open>pd.to_datetime\<close> on a column of texts. The parser of one text is a parameter
  \<open>to_datetime\<close> (\<open>None\<close> where pandas raises); the first text that fails raises.
\<close>

fun to_datetime_column ::
  "(string \<Rightarrow> timestamp option) \<Rightarrow> raw_row list \<Rightarrow> py_error + (timestamp \<times> real) list" where
  "to_datetime_column to_datetime [] = Inr []"
| "to_datetime_column to_datetime ((s, v) # rows) =
     (case to_datetime s of
        None \<Rightarrow> Inl DateParseError
      | Some d \<Rightarrow>
          (case to_datetime_column to_datetime rows of
             Inl e \<Rightarrow> Inl e
           | Inr rest \<Rightarrow> Inr ((d, v) # rest)))"

text \<open>
  \<open>pd.merge(pr, ghi, on='Date', how='inner')\<close> followed by the projection to
  \<open>['Date', 'GHI', 'PR']\<close>: every pair of a PR row and a GHI row with equal Date gives
  one row; the rows follow the order of the keys of the left (PR) frame, as pandas
  documents for an inner join, and for one PR row the order of the matching GHI rows.
\<close>

definition pd_merge_inner ::
  "(timestamp \<times> real) list \<Rightarrow> (timestamp \<times> real) list \<Rightarrow> merged_row list" where
  "pd_merge_inner pr ghi =
     concat (map (\<lambda>(d, p).
       map (\<lambda>(d', g). \<lparr>Date = d, GHI = g, PR = p\<rparr>)
           (filter (\<lambda>(d', g). d' = d) ghi)) pr)"

text \<open>\<open>Series.min()\<close> and \<open>Series.max()\<close> of a Date column: NaT when it is empty.\<close>

fun series_min :: "timestamp list \<Rightarrow> timestamp option" where
  "series_min [] = None"
| "series_min (d # ds) = Some (fold min ds d)"

fun series_max :: "timestamp list \<Rightarrow> timestamp option" where
  "series_max [] = None"
| "series_max (d # ds) = Some (fold max ds d)"

text \<open>\<open>Series.mean()\<close>: NaN for an empty series, with no exception.\<close>

definition series_mean :: "real list \<Rightarrow> real option" where
  "series_mean xs = (if xs = [] then None else Some (sum_list xs / real (length xs)))"

text \<open>
  \<open>Series.rolling(window=w, center=True).mean()\<close>. For row \<open>i\<close> of \<open>n\<close> pandas takes
  the window of rows \<open>[start, end)\<close> with \<open>offset = (w - 1) // 2\<close>,
  \<open>end = i + 1 + offset\<close> and \<open>start = end - w\<close>, both clipped to \<open>0..n\<close>; the mean
  is defined when the window holds at least \<open>min_periods = w\<close> rows.
\<close>

definition window_bounds :: "nat \<Rightarrow> nat \<Rightarrow> nat \<Rightarrow> nat \<times> nat" where
  "window_bounds w n i =
     (let offset = (int w - 1) div 2;
          e = int i + 1 + offset;
          s = e - int w
      in (nat (max 0 (min s (int n))), nat (max 0 (min e (int n)))))"

definition rolling_mean_centered :: "nat \<Rightarrow> real list \<Rightarrow> real option list" where
  "rolling_mean_centered w xs =
     map (\<lambda>i. let (s, e) = window_bounds w (length xs) i;
                  win = take (e - s) (drop s xs)
              in if w \<le> length win then series_mean win else None)
         [0..<length xs]"

text \<open>\<open>Series.unique()\<close>: the distinct values in order of first appearance.\<close>

fun unique :: "'a list \<Rightarrow> 'a list" where
  "unique [] = []"
| "unique (x # xs) = x # unique (filter (\<lambda>y. y \<noteq> x) xs)"

text \<open>
  \<open>Series.dt.year\<close>: the year of the proleptic Gregorian calendar date of a timestamp,
  from the day number since 1970-01-01. The calendar repeats in eras of 400 years
  (146097 days) that start on a 1 March; \<open>yoe_of\<close> is the year of the era that starts
  on 1 March, and the days from 1 January to the end of February belong to the next
  calendar year.
\<close>

definition yoe_of :: "int \<Rightarrow> int" where
  "yoe_of doe = (doe - doe div 1460 + doe div 36524 - doe div 146096) div 365"

definition year_of_era :: "int \<Rightarrow> int" where
  "year_of_era doe =
     (let yoe = yoe_of doe;
          doy = doe - (365 * yoe + yoe div 4 - yoe div 100);
          mp = (5 * doy + 2) div 153
      in yoe + (if mp < 10 then 0 else 1))"

definition year_of_days :: "int \<Rightarrow> int" where
  "year_of_days days =
     (let z = days + 719468;
          era = z div 146097;
          doe = z mod 146097
      in year_of_era doe + era * 400)"

definition dt_year :: "timestamp \<Rightarrow> int" where
  "dt_year t = year_of_days (t div ns_per_day)"

text \<open>
  A Python \<open>dict\<close> keeps its keys in insertion order; assigning to a key that is
  present replaces the value in place.
\<close>

fun dict_set :: "('k \<times> 'v) list \<Rightarrow> 'k \<Rightarrow> 'v \<Rightarrow> ('k \<times> 'v) list" where
  "dict_set [] k v = [(k, v)]"
| "dict_set ((k', v') # kvs) k v =
     (if k' = k then (k, v) # kvs else (k', v') # dict_set kvs k v)"

subsection \<open>process_data\<close>

text \<open>
  The loop over the sorted file list: \<open>read_csv\<close> is the file system as the run sees
  it, from a path to the rows of the file or to the exception reading it raises.
\<close>

fun read_files ::
  "(string \<Rightarrow> py_error + raw_row list) \<Rightarrow> string list \<Rightarrow> py_error + raw_row list list" where
  "read_files read_csv [] = Inr []"
| "read_files read_csv (file # files) =
     (case read_csv file of
        Inl e \<Rightarrow> Inl e
      | Inr df \<Rightarrow>
          (case read_files read_csv files of
             Inl e \<Rightarrow> Inl e
           | Inr data_list \<Rightarrow> Inr (df # data_list)))"

text \<open>
  \<open>glob_pr\<close> and \<open>glob_ghi\<close> are what \<open>glob.glob(os.path.join(path, "*", "*.csv"))\<close>
  returns for the two folders, in the arbitrary order glob gives (the empty list for a
  folder that has no match or does not exist).
\<close>

text \<open>
  Step 3 of the function: both Date columns are converted, the frames are joined on
  Date, and the result is projected to Date, GHI, PR.
\<close>

definition merge_frames ::
  "(string \<Rightarrow> timestamp option) \<Rightarrow> raw_row list \<Rightarrow> raw_row list \<Rightarrow>
   py_error + merged_row list" where
  "merge_frames to_datetime pr_combined ghi_combined =
     and_then (to_datetime_column to_datetime pr_combined) (\<lambda>pr_dated.
     and_then (to_datetime_column to_datetime ghi_combined) (\<lambda>ghi_dated.
     Inr (pd_merge_inner pr_dated ghi_dated)))"

definition process_data ::
  "(string \<Rightarrow> py_error + raw_row list) \<Rightarrow> (string \<Rightarrow> timestamp option) \<Rightarrow>
   string list \<Rightarrow> string list \<Rightarrow> py_error + merged_row list" where
  "process_data read_csv to_datetime glob_pr glob_ghi =
     and_then (read_files read_csv (sort glob_pr)) (\<lambda>pr_data_list.
     and_then (pd_concat pr_data_list) (\<lambda>pr_combined.
     and_then (read_files read_csv (sort glob_ghi)) (\<lambda>ghi_data_list.
     and_then (pd_concat ghi_data_list) (\<lambda>ghi_combined.
     merge_frames to_datetime pr_combined ghi_combined))))"

subsection \<open>create_visualization\<close>

text \<open>Python truthiness of an optional text argument: \<open>None\<close> and \<open>''\<close> are false.\<close>

definition truthy :: "string option \<Rightarrow> bool" where
  "truthy a = (case a of None \<Rightarrow> False | Some s \<Rightarrow> s \<noteq> [])"

text \<open>The date filter at the head of the function.\<close>

definition date_filter ::
  "(string \<Rightarrow> timestamp option) \<Rightarrow> merged_row list \<Rightarrow> string option \<Rightarrow> string option \<Rightarrow>
   py_error + merged_row list" where
  "date_filter to_datetime df start_date end_date =
     (if truthy start_date \<or> truthy end_date then
        and_then
          (if truthy start_date then
             (case to_datetime (the start_date) of
                None \<Rightarrow> Inl DateParseError
              | Some sd \<Rightarrow> Inr (filter (\<lambda>r. sd \<le> Date r) df))
           else Inr df)
          (\<lambda>df1.
             if truthy end_date then
               (case to_datetime (the end_date) of
                  None \<Rightarrow> Inl DateParseError
                | Some ed \<Rightarrow> Inr (filter (\<lambda>r. Date r \<le> ed) df1))
             else Inr df1)
      else Inr df)"

definition start_budget :: real where
  "start_budget = 73.9"

definition annual_degradation :: real where
  "annual_degradation = 0.008"

text \<open>The budget formula of the script, as a function of \<open>years_from_start\<close>.\<close>

definition budget :: "real \<Rightarrow> real" where
  "budget years = start_budget * ((1 - annual_degradation) powr years)"

definition get_color :: "real \<Rightarrow> string" where
  "get_color ghi_value =
     (if ghi_value < 2 then ''navy''
      else if ghi_value < 4 then ''lightblue''
      else if ghi_value < 6 then ''orange''
      else ''brown'')"

definition ranges :: "(string \<times> string) list" where
  "ranges = [(''navy'', ''<2''), (''lightblue'', ''2-4''), (''orange'', ''4-6''), (''brown'', ''>6'')]"

definition get_ghi_range :: "string \<Rightarrow> string" where
  "get_ghi_range c = (case map_of ranges c of Some r \<Rightarrow> r | None \<Rightarrow> [])"

text \<open>
  The columns added one after the other: \<open>PR_30MA\<close>, \<open>days_from_start\<close>,
  \<open>years_from_start\<close>, \<open>budget_line\<close>, \<open>color\<close> and \<open>year\<close>. \<open>d0\<close> is
  \<open>df['Date'].min()\<close> of the frame after the filter.
\<close>

definition derive_row :: "timestamp \<Rightarrow> merged_row \<Rightarrow> real option \<Rightarrow> derived_row" where
  "derive_row d0 r ma =
     (let days = (Date r - d0) div ns_per_day;
          years = real_of_int days / 365.25
      in \<lparr>Date = Date r, GHI = GHI r, PR = PR r,
          PR_30MA = ma,
          days_from_start = days,
          years_from_start = years,
          budget_line = budget years,
          color = get_color (GHI r),
          year = dt_year (Date r)\<rparr>)"

definition derive_columns :: "merged_row list \<Rightarrow> derived_row list" where
  "derive_columns df =
     (case series_min (map Date df) of
        None \<Rightarrow> []
      | Some start_date_data \<Rightarrow>
          map (\<lambda>(r, ma). derive_row start_date_data r ma)
              (zip df (rolling_mean_centered 30 (map PR df))))"

text \<open>
  The trailing statistics: the rows with \<open>Date > latest_date - timedelta(days=n)\<close>
  (a comparison with NaT is false for every row), and the mean of their PR.
\<close>

definition last_n_days :: "int \<Rightarrow> derived_row list \<Rightarrow> derived_row list" where
  "last_n_days n df =
     (case series_max (map Date df) of
        None \<Rightarrow> []
      | Some latest_date \<Rightarrow> filter (\<lambda>r. Date r > latest_date - timedelta_days n) df)"

definition trailing_avg :: "int \<Rightarrow> derived_row list \<Rightarrow> real option" where
  "trailing_avg n df = series_mean (map PR (last_n_days n df))"

text \<open>The loop over \<open>df['year'].unique()\<close> that fills the dict \<open>yearly_stats\<close>.\<close>

fun yearly_loop ::
  "derived_row list \<Rightarrow> int list \<Rightarrow> (int \<times> nat) list \<Rightarrow> (int \<times> nat) list" where
  "yearly_loop df [] stats = stats"
| "yearly_loop df (y # ys) stats =
     (let year_data = filter (\<lambda>r. year r = y) df;
          above_budget = length (filter (\<lambda>r. PR r > budget_line r) year_data)
      in yearly_loop df ys (dict_set stats y above_budget))"

definition yearly_stats :: "derived_row list \<Rightarrow> (int \<times> nat) list" where
  "yearly_stats df = yearly_loop df (unique (map year df)) []"

text \<open>
  The statistics text box, before the numbers are formatted: the three averages and one
  line per item of \<open>yearly_stats\<close>, in the order of the dict.
\<close>

record stats_box =
  avg_7_day :: "real option"
  avg_30_day :: "real option"
  avg_60_day :: "real option"
  year_lines :: "(int \<times> nat) list"

text \<open>What a call leaves behind: the frame it returns and the text box it draws.\<close>

record visualization =
  frame :: "derived_row list"
  stats_text :: stats_box

definition render :: "merged_row list \<Rightarrow> visualization" where
  "render df0 =
     (let df = derive_columns df0
      in \<lparr>frame = df,
          stats_text = \<lparr>avg_7_day = trailing_avg 7 df,
                        avg_30_day = trailing_avg 30 df,
                        avg_60_day = trailing_avg 60 df,
                        year_lines = yearly_stats df\<rparr>\<rparr>)"

definition create_visualization ::
  "(string \<Rightarrow> timestamp option) \<Rightarrow> merged_row list \<Rightarrow> string option \<Rightarrow> string option \<Rightarrow>
   py_error + visualization" where
  "create_visualization to_datetime df start_date end_date =
     and_then (date_filter to_datetime df start_date end_date) (\<lambda>df1. Inr (render df1))"

subsection \<open>main\<close>

datatype artifact =
    ProcessedCsv "merged_row list"   \<comment> \<open>processed_solar_data.csv\<close>
  | ChartPng                         \<comment> \<open>solar_performance_analysis.png\<close>

text \<open>The run: the exception that ended it, if any, and the files written, in order.\<close>

definition main ::
  "(string \<Rightarrow> py_error + raw_row list) \<Rightarrow> (string \<Rightarrow> timestamp option) \<Rightarrow>
   string list \<Rightarrow> string list \<Rightarrow> py_error option \<times> artifact list" where
  "main read_csv to_datetime glob_pr glob_ghi =
     (case process_data read_csv to_datetime glob_pr glob_ghi of
        Inl e \<Rightarrow> (Some e, [])
      | Inr processed_data \<Rightarrow>
          (case create_visualization to_datetime processed_data None None of
             Inl e \<Rightarrow> (Some e, [ProcessedCsv processed_data])
           | Inr final_data \<Rightarrow> (None, [ProcessedCsv processed_data, ChartPng])))"

subsection \<open>Example inputs\<close>

text \<open>Forty daily rows with the constant PR 50.\<close>

definition constant_series :: "merged_row list" where
  "constant_series = map (\<lambda>i. \<lparr>Date = int i * ns_per_day, GHI = 3, PR = 50\<rparr>) [0..<40]"

text \<open>Two rows 366 days apart, the later one first.\<close>

definition two_rows :: "merged_row list" where
  "two_rows = [\<lparr>Date = 366 * ns_per_day, GHI = 5, PR = 75\<rparr>, \<lparr>Date = 0, GHI = 3, PR = 70\<rparr>]"

text \<open>A date parser for the examples: three ISO dates and their timestamps.\<close>

definition example_dates :: "string \<Rightarrow> timestamp option" where
  "example_dates = map_of
     [(''2020-01-01'', 18262 * ns_per_day),
      (''2020-06-01'', 18414 * ns_per_day),
      (''2021-01-01'', 18628 * ns_per_day)]"

text \<open>Raw PR and GHI frames: with one row per date, and with a date that occurs twice.\<close>

definition pr_unique :: "raw_row list" where
  "pr_unique = [(''2020-01-01'', 75), (''2020-06-01'', 70)]"

definition ghi_unique :: "raw_row list" where
  "ghi_unique = [(''2021-01-01'', 3), (''2020-01-01'', 5)]"

definition pr_twice :: "raw_row list" where
  "pr_twice = [(''2020-01-01'', 75), (''2020-01-01'', 70)]"

definition ghi_twice :: "raw_row list" where
  "ghi_twice = [(''2020-01-01'', 5), (''2020-01-01'', 6)]"

text \<open>
  The three rows of the yearly count example: PR 80 and 70 against a budget of 75 in
  2020, PR 90 against a budget of 60 in 2021.
\<close>

definition exceedance_rows :: "derived_row list" where
  "exceedance_rows =
     [\<lparr>Date = 18262 * ns_per_day, GHI = 5, PR = 80, PR_30MA = None, days_from_start = 0,
       years_from_start = 0, budget_line = 75, color = ''orange'', year = 2020\<rparr>,
      \<lparr>Date = 18414 * ns_per_day, GHI = 5, PR = 70, PR_30MA = None, days_from_start = 152,
       years_from_start = 152 / 365.25, budget_line = 75, color = ''orange'', year = 2020\<rparr>,
      \<lparr>Date = 18628 * ns_per_day, GHI = 5, PR = 90, PR_30MA = None, days_from_start = 366,
       years_from_start = 366 / 365.25, budget_line = 60, color = ''orange'', year = 2021\<rparr>]"

text \<open>Two rows of the years 2020 and 2021, in ascending and in descending Date order.\<close>

definition ascending_rows :: "merged_row list" where
  "ascending_rows = [\<lparr>Date = 18262 * ns_per_day, GHI = 3, PR = 70\<rparr>, \<lparr>Date = 18628 * ns_per_day, GHI = 5, PR = 75\<rparr>]"

definition unsorted_rows :: "merged_row list" where
  "unsorted_rows = [\<lparr>Date = 18628 * ns_per_day, GHI = 5, PR = 75\<rparr>, \<lparr>Date = 18262 * ns_per_day, GHI = 3, PR = 70\<rparr>]"

text \<open>Three rows of 2020-01-01, 2020-06-01 and 2021-01-01.\<close>

definition three_dates :: "merged_row list" where
  "three_dates =
     [\<lparr>Date = 18262 * ns_per_day, GHI = 3, PR = 70\<rparr>,
      \<lparr>Date = 18414 * ns_per_day, GHI = 5, PR = 75\<rparr>,
      \<lparr>Date = 18628 * ns_per_day, GHI = 7, PR = 80\<rparr>]"

text \<open>A file system for the examples: two PR files and one GHI file.\<close>

definition example_files :: "string \<Rightarrow> py_error + raw_row list" where
  "example_files path =
     (if path = ''PR/2020/a.csv'' then Inr [(''2020-01-01'', 75)]
      else if path = ''PR/2020/b.csv'' then Inr [(''2020-06-01'', 70)]
      else if path = ''GHI/2020/a.csv'' then Inr [(''2020-06-01'', 3), (''2020-01-01'', 5)]
      else Inl ReadError)"

section \<open>Properties\<close>

text \<open>
  C3. GHI banding (the legend's band of the colour \<open>get_color\<close> picks) is a total
  partition of the GHI values into the four bands \<open><2\<close>, \<open>2-4\<close>, \<open>4-6\<close>, \<open>>6\<close>: every
  value has exactly the band its less-than tests select, so the four bands are the
  intervals below 2, from 2 below 4, from 4 below 6, and from 6 on; the boundary values
  1.999, 2.0, 4.0 and 6.0 fall into \<open><2\<close>, \<open>2-4\<close>, \<open>4-6\<close> and \<open>>6\<close>.
\<close>

theorem ghi_band_partition:
  "get_ghi_range (get_color g) \<in> {''<2'', ''2-4'', ''4-6'', ''>6''}
   \<and> (get_ghi_range (get_color g) = ''<2'') = (g < 2)
   \<and> (get_ghi_range (get_color g) = ''2-4'') = (2 \<le> g \<and> g < 4)
   \<and> (get_ghi_range (get_color g) = ''4-6'') = (4 \<le> g \<and> g < 6)
   \<and> (get_ghi_range (get_color g) = ''>6'') = (6 \<le> g)
   \<and> get_ghi_range (get_color 1.999) = ''<2''
   \<and> get_ghi_range (get_color 2.0) = ''2-4''
   \<and> get_ghi_range (get_color 4.0) = ''4-6''
   \<and> get_ghi_range (get_color 6.0) = ''>6''"
  by (simp add: get_ghi_range_def get_color_def ranges_def)

subsection \<open>Facts about the derived frame\<close>

lemma series_min_Min: "series_min ds = (if ds = [] then None else Some (Min (set ds)))"
  by (cases ds) (simp_all add: Min.set_eq_fold [symmetric])

lemma series_max_Max: "series_max ds = (if ds = [] then None else Some (Max (set ds)))"
  by (cases ds) (simp_all add: Max.set_eq_fold [symmetric])

lemma length_rolling_mean_centered [simp]: "length (rolling_mean_centered w xs) = length xs"
  by (simp add: rolling_mean_centered_def)

lemma derive_columns_Nil [simp]: "derive_columns [] = []"
  by (simp add: derive_columns_def)

lemma derive_columns_eq:
  "df \<noteq> [] \<Longrightarrow> derive_columns df =
     map (\<lambda>(r, ma). derive_row (Min (Date ` set df)) r ma)
         (zip df (rolling_mean_centered 30 (map PR df)))"
  by (simp add: derive_columns_def series_min_Min)

lemma length_derive_columns [simp]: "length (derive_columns df) = length df"
  by (cases "df = []") (simp_all add: derive_columns_eq)

lemma map_fst_zip_same: "length ys = length xs \<Longrightarrow> map (\<lambda>(x, y). f x) (zip xs ys) = map f xs"
  by (induction xs ys rule: list_induct2') auto

lemma map_Date_derive_columns [simp]: "map Date (derive_columns df) = map Date df"
proof (cases "df = []")
  case False
  have "map Date (derive_columns df) =
        map (\<lambda>(r, ma). Date r) (zip df (rolling_mean_centered 30 (map PR df)))"
    using False by (simp add: derive_columns_eq derive_row_def Let_def split_def)
  then show ?thesis by (simp add: map_fst_zip_same)
qed simp

lemma map_PR_derive_columns [simp]: "map PR (derive_columns df) = map PR df"
proof (cases "df = []")
  case False
  have "map PR (derive_columns df) =
        map (\<lambda>(r, ma). PR r) (zip df (rolling_mean_centered 30 (map PR df)))"
    using False by (simp add: derive_columns_eq derive_row_def Let_def split_def)
  then show ?thesis by (simp add: map_fst_zip_same)
qed simp

lemma map_PR_30MA_derive_columns:
  "map PR_30MA (derive_columns df) = rolling_mean_centered 30 (map PR df)"
proof (cases "df = []")
  case False
  have "map PR_30MA (derive_columns df) =
        map snd (zip df (rolling_mean_centered 30 (map PR df)))"
    using False by (simp add: derive_columns_eq derive_row_def Let_def split_def comp_def)
  then show ?thesis by (simp add: map_snd_zip)
next
  case True then show ?thesis by (simp add: rolling_mean_centered_def)
qed

lemma rolling_constant_40:
  "rolling_mean_centered 30 (replicate 40 50) =
     replicate 15 None @ replicate 11 (Some 50) @ replicate 14 None"
  by code_simp

lemma map_const_replicate: "\<forall>x\<in>set xs. f x = c \<Longrightarrow> map f xs = replicate (length xs) c"
  by (induction xs) auto

lemma budget_strict_decreasing: "y1 < y2 \<Longrightarrow> budget y2 < budget y1"
proof -
  assume "y1 < y2"
  then have "(1 - annual_degradation) powr y2 < (1 - annual_degradation) powr y1"
    by (intro powr_less_mono') (simp_all add: annual_degradation_def)
  then show ?thesis by (simp add: budget_def start_budget_def)
qed

lemma create_visualization_Inr:
  "create_visualization to_datetime df start_date end_date = Inr v \<longleftrightarrow>
     (\<exists>df1. date_filter to_datetime df start_date end_date = Inr df1 \<and> v = render df1)"
  by (auto simp add: create_visualization_def and_then_def split: sum.splits)

lemma frame_render [simp]: "frame (render df) = derive_columns df"
  by (simp add: render_def Let_def)

lemma derive_columns_row:
  assumes "r \<in> set (derive_columns df)"
  shows "\<exists>m ma. m \<in> set df \<and> r = derive_row (Min (Date ` set df)) m ma"
proof -
  from assms have ne: "df \<noteq> []" by (cases "df = []") auto
  from assms show ?thesis
    unfolding derive_columns_eq [OF ne] by (auto dest: set_zip_leftD)
qed

subsection \<open>Rolling mean\<close>

text \<open>
  C2 (as amended). For a series of 40 rows with constant PR = 50 and no date filter, the
  centred 30-row rolling mean is 50 at every row where it is defined; it is undefined at
  exactly the first 15 rows and the last 14 rows, and defined at the 11 rows between.
  (The window of row \<open>i\<close> is rows \<open>i - 15\<close> to \<open>i + 14\<close>.)
\<close>

theorem rolling_mean_constant_series:
  assumes "length df = 40" and "\<forall>r\<in>set df. PR r = 50"
  shows "\<exists>v. create_visualization to_datetime df None None = Inr v
           \<and> map PR_30MA (frame v) =
               replicate 15 None @ replicate 11 (Some 50) @ replicate 14 None"
proof -
  have "map PR df = replicate 40 50"
    using assms map_const_replicate [of df PR 50] by simp
  then have "map PR_30MA (frame (render df)) =
      replicate 15 None @ replicate 11 (Some 50) @ replicate 14 None"
    by (simp add: render_def Let_def map_PR_30MA_derive_columns rolling_constant_40)
  then show ?thesis
    by (simp add: create_visualization_def date_filter_def truthy_def and_then_def)
qed

theorem rolling_mean_constant_series_witness:
  "length constant_series = 40 \<and> list_all (\<lambda>r. PR r = 50) constant_series \<and>
   (\<exists>v. create_visualization (\<lambda>s. None) constant_series None None = Inr v
           \<and> map PR_30MA (frame v) =
               replicate 15 None @ replicate 11 (Some 50) @ replicate 14 None)"
proof -
  have l: "length constant_series = 40" by (simp add: constant_series_def)
  have p: "\<forall>r\<in>set constant_series. PR r = 50" by (auto simp add: constant_series_def)
  from rolling_mean_constant_series [OF l p, of "\<lambda>s. None"] l p show ?thesis
    by (simp add: list_all_iff)
qed

text \<open>
  The claim as stated asks for exactly 14 undefined rows at the start: the fifteenth row
  (index 14) would then hold a mean. It does not; the first 15 entries are undefined.
\<close>

theorem rolling_mean_edge_counterexample:
  "create_visualization (\<lambda>s. None) constant_series None None = Inr (render constant_series)
   \<and> length (frame (render constant_series)) = 40
   \<and> take 15 (map PR_30MA (frame (render constant_series))) = replicate 15 None"
proof -
  have "map PR constant_series = replicate 40 50"
    using map_const_replicate [of constant_series PR 50] by (auto simp add: constant_series_def)
  then have "map PR_30MA (frame (render constant_series)) =
      replicate 15 None @ replicate 11 (Some 50) @ replicate 14 None"
    by (simp add: render_def Let_def map_PR_30MA_derive_columns rolling_constant_40)
  moreover have "length (frame (render constant_series)) = 40"
    by (simp add: render_def Let_def constant_series_def)
  ultimately show ?thesis
    by (simp add: create_visualization_def date_filter_def truthy_def and_then_def)
qed

subsection \<open>Budget line\<close>

lemma map_derive_columns_of_row:
  assumes "\<And>d0 m ma. h (derive_row d0 m ma) = g d0 m"
  shows "map h (derive_columns df) = map (g (Min (Date ` set df))) df"
proof (cases "df = []")
  case True
  then show ?thesis by simp
next
  case False
  have "map h (derive_columns df) =
        map (\<lambda>(m, ma). g (Min (Date ` set df)) m) (zip df (rolling_mean_centered 30 (map PR df)))"
    using False by (simp add: derive_columns_eq assms split_def comp_def)
  then show ?thesis by (simp add: map_fst_zip_same)
qed

lemma map_days_from_start_derive_columns:
  "map days_from_start (derive_columns df) =
     map (\<lambda>m. (Date m - Min (Date ` set df)) div ns_per_day) df"
  by (rule map_derive_columns_of_row) (simp add: derive_row_def Let_def)

lemma map_years_from_start_derive_columns:
  "map years_from_start (derive_columns df) =
     map (\<lambda>m. real_of_int ((Date m - Min (Date ` set df)) div ns_per_day) / 365.25) df"
  by (rule map_derive_columns_of_row) (simp add: derive_row_def Let_def)

lemma map_budget_line_derive_columns:
  "map budget_line (derive_columns df) =
     map (\<lambda>m. 73.9 * (1 - 0.008) powr
               (real_of_int ((Date m - Min (Date ` set df)) div ns_per_day) / 365.25)) df"
  by (rule map_derive_columns_of_row)
     (simp add: derive_row_def Let_def budget_def start_budget_def annual_degradation_def)

text \<open>
  C4. The frame a call returns has one row for each row of the series after the optional
  date filter, in the same order and with the same Date, and the budget line of each row
  equals \<open>73.9 * (1 - 0.008) ^ years\<close> with \<open>years = days / 365.25\<close> and
  \<open>days = (Date - d0).days\<close>, where \<open>d0\<close> is the minimum Date of that filtered
  series; and the budget is strictly decreasing in the year offset: \<open>y1 < y2\<close> gives
  \<open>budget y1 > budget y2\<close>.
\<close>

theorem budget_line_decay:
  assumes "create_visualization to_datetime df start_date end_date = Inr v"
  shows "\<exists>df1. date_filter to_datetime df start_date end_date = Inr df1
           \<and> length (frame v) = length df1
           \<and> map Date (frame v) = map Date df1
           \<and> map days_from_start (frame v) =
                 map (\<lambda>m. (Date m - Min (Date ` set df1)) div ns_per_day) df1
           \<and> map years_from_start (frame v) =
                 map (\<lambda>m. real_of_int ((Date m - Min (Date ` set df1)) div ns_per_day) / 365.25) df1
           \<and> map budget_line (frame v) =
                 map (\<lambda>m. 73.9 * (1 - 0.008) powr
                        (real_of_int ((Date m - Min (Date ` set df1)) div ns_per_day) / 365.25)) df1
           \<and> (\<forall>r\<in>set (frame v).
                 days_from_start r = (Date r - Min (Date ` set df1)) div ns_per_day
               \<and> years_from_start r = real_of_int (days_from_start r) / 365.25
               \<and> budget_line r = 73.9 * (1 - 0.008) powr years_from_start r
               \<and> budget_line r = budget (years_from_start r))
           \<and> (\<forall>y1 y2. y1 < y2 \<longrightarrow> budget y2 < budget y1)"
proof -
  from assms obtain df1 where f: "date_filter to_datetime df start_date end_date = Inr df1"
    and v: "v = render df1"
    by (auto simp add: create_visualization_Inr)
  have rows: "days_from_start r = (Date r - Min (Date ` set df1)) div ns_per_day
      \<and> years_from_start r = real_of_int (days_from_start r) / 365.25
      \<and> budget_line r = 73.9 * (1 - 0.008) powr years_from_start r
      \<and> budget_line r = budget (years_from_start r)" if "r \<in> set (frame v)" for r
  proof -
    from that v obtain m ma where "r = derive_row (Min (Date ` set df1)) m ma"
      using derive_columns_row [of r df1] by auto
    then show ?thesis
      by (simp add: derive_row_def Let_def budget_def start_budget_def annual_degradation_def)
  qed
  have l: "length (frame v) = length df1" by (simp add: v)
  have d: "map Date (frame v) = map Date df1" by (simp add: v)
  have c1: "map days_from_start (frame v) =
      map (\<lambda>m. (Date m - Min (Date ` set df1)) div ns_per_day) df1"
    unfolding v frame_render by (rule map_days_from_start_derive_columns)
  have c2: "map years_from_start (frame v) =
      map (\<lambda>m. real_of_int ((Date m - Min (Date ` set df1)) div ns_per_day) / 365.25) df1"
    unfolding v frame_render by (rule map_years_from_start_derive_columns)
  have c3: "map budget_line (frame v) =
      map (\<lambda>m. 73.9 * (1 - 0.008) powr
             (real_of_int ((Date m - Min (Date ` set df1)) div ns_per_day) / 365.25)) df1"
    unfolding v frame_render by (rule map_budget_line_derive_columns)
  from f l d c1 c2 c3 rows budget_strict_decreasing show ?thesis by blast
qed

theorem budget_line_decay_witness:
  "create_visualization (\<lambda>s. None) two_rows None None = Inr (render two_rows)
   \<and> map Date (frame (render two_rows)) = [366 * ns_per_day, 0]
   \<and> map days_from_start (frame (render two_rows)) = [366, 0]
   \<and> map budget_line (frame (render two_rows)) =
        [73.9 * (1 - 0.008) powr (366 / 365.25), 73.9]
   \<and> budget 1 < budget 0"
proof -
  have c: "create_visualization (\<lambda>s. None) two_rows None None = Inr (render two_rows)"
    by (simp add: create_visualization_def date_filter_def truthy_def and_then_def)
  have d: "date_filter (\<lambda>s. None) two_rows None None = Inr two_rows"
    by (simp add: date_filter_def truthy_def)
  have m: "Min (Date ` set two_rows) = 0" by (simp add: two_rows_def ns_per_day_def)
  from budget_line_decay [OF c] obtain df1 where
    f: "date_filter (\<lambda>s. None) two_rows None None = Inr df1"
    and dt: "map Date (frame (render two_rows)) = map Date df1"
    and ds: "map days_from_start (frame (render two_rows)) =
               map (\<lambda>m. (Date m - Min (Date ` set df1)) div ns_per_day) df1"
    and bl: "map budget_line (frame (render two_rows)) =
               map (\<lambda>m. 73.9 * (1 - 0.008) powr
                      (real_of_int ((Date m - Min (Date ` set df1)) div ns_per_day) / 365.25)) df1"
    and b: "\<forall>y1 y2. y1 < y2 \<longrightarrow> budget y2 < budget y1"
    by (elim exE conjE)
  from f d have e: "df1 = two_rows" by simp
  have b1: "budget 1 < budget 0" using b by simp
  have d1: "map Date (frame (render two_rows)) = [366 * ns_per_day, 0]"
    unfolding dt e by (simp add: two_rows_def)
  have d2: "map days_from_start (frame (render two_rows)) = [366, 0]"
    unfolding ds e m by (simp add: two_rows_def ns_per_day_def)
  have d3: "map budget_line (frame (render two_rows)) =
        [73.9 * (1 - 0.008) powr (366 / 365.25), 73.9]"
    unfolding bl e m by (simp add: two_rows_def ns_per_day_def)
  from c d1 d2 d3 b1 show ?thesis by blast
qed

subsection \<open>Merge\<close>

lemma to_datetime_column_Inr:
  "to_datetime_column td rows = Inr dated \<Longrightarrow>
     map (\<lambda>(s, v). (td s, v)) rows = map (\<lambda>(d, v). (Some d, v)) dated"
  by (induction td rows arbitrary: dated rule: to_datetime_column.induct)
     (auto split: option.splits sum.splits)

lemma to_datetime_column_dates:
  assumes "to_datetime_column td rows = Inr dated"
  shows "map (\<lambda>(s, v). td s) rows = map (\<lambda>(d, v). Some d) dated"
proof -
  have "map fst (map (\<lambda>(s, v). (td s, v)) rows) = map fst (map (\<lambda>(d, v). (Some d, v)) dated)"
    using to_datetime_column_Inr [OF assms] by simp
  then show ?thesis by (simp add: comp_def split_def)
qed

lemma to_datetime_column_length:
  "to_datetime_column td rows = Inr dated \<Longrightarrow> length dated = length rows"
  using to_datetime_column_dates [of td rows dated] by (metis length_map)

lemma to_datetime_column_mem:
  assumes "to_datetime_column td rows = Inr dated" and "d \<in> fst ` set dated"
  shows "\<exists>s v. (s, v) \<in> set rows \<and> td s = Some d"
proof -
  from assms(2) have "Some d \<in> set (map (\<lambda>(d, v). Some d) dated)" by force
  then have "Some d \<in> set (map (\<lambda>(s, v). td s) rows)"
    using to_datetime_column_dates [OF assms(1)] by simp
  then show ?thesis by auto
qed

lemma to_datetime_column_distinct:
  assumes "to_datetime_column td rows = Inr dated" and "distinct (map (\<lambda>(s, v). td s) rows)"
  shows "distinct (map fst dated)"
proof -
  have "distinct (map (\<lambda>(d, v). Some d) dated)"
    using assms to_datetime_column_dates [OF assms(1)] by simp
  moreover have "map (\<lambda>(d, v). Some d) dated = map Some (map fst dated)"
    by (simp add: comp_def split_def)
  ultimately have "distinct (map Some (map fst dated))" by simp
  then show ?thesis using distinct_map [of Some "map fst dated"] by blast
qed

lemma length_pd_merge_inner:
  "length (pd_merge_inner pr ghi) = (\<Sum>x\<leftarrow>pr. length (filter (\<lambda>y. fst y = fst x) ghi))"
  by (simp add: pd_merge_inner_def length_concat comp_def split_def)

lemma matches_swap:
  "(\<Sum>x\<leftarrow>xs. length (filter (\<lambda>y. fst y = fst x) ys)) =
   (\<Sum>y\<leftarrow>ys. length (filter (\<lambda>x. fst x = fst y) xs))"
proof (induction xs)
  case Nil
  then show ?case by simp
next
  case (Cons x xs)
  have "length (filter (\<lambda>y. fst y = fst x) ys) = (\<Sum>y\<leftarrow>ys. if fst x = fst y then 1 else 0)"
    by (induction ys) auto
  moreover have "(\<Sum>y\<leftarrow>ys. length (filter (\<lambda>x. fst x = fst y) (x # xs))) =
     (\<Sum>y\<leftarrow>ys. if fst x = fst y then 1 else 0) + (\<Sum>y\<leftarrow>ys. length (filter (\<lambda>x. fst x = fst y) xs))"
    by (induction ys) auto
  ultimately show ?case using Cons by simp
qed

lemma matches_le_length: "(\<Sum>x\<leftarrow>xs. length (filter (\<lambda>y. fst y = fst x) ys)) \<le> length xs * length ys"
proof (induction xs)
  case (Cons x xs)
  have "length (filter (\<lambda>y. fst y = fst x) ys) \<le> length ys" by simp
  with Cons show ?case by (simp add: add_mono)
qed simp

lemma distinct_match_le_one:
  "distinct (map fst ys) \<Longrightarrow> length (filter (\<lambda>y. fst y = d) ys) \<le> 1"
  by (induction ys) (auto simp add: filter_empty_conv image_iff)

lemma matches_le_left:
  assumes "distinct (map fst ys)"
  shows "(\<Sum>x\<leftarrow>xs. length (filter (\<lambda>y. fst y = fst x) ys)) \<le> length xs"
proof (induction xs)
  case (Cons x xs)
  with distinct_match_le_one [OF assms, of "fst x"] show ?case by simp
qed simp

lemma pd_merge_inner_Date:
  "r \<in> set (pd_merge_inner pr ghi) \<Longrightarrow> Date r \<in> fst ` set pr \<and> Date r \<in> fst ` set ghi"
  by (auto simp add: pd_merge_inner_def image_iff) force+

lemma merge_frames_Inr:
  "merge_frames td pr ghi = Inr merged \<longleftrightarrow>
     (\<exists>pr_dated ghi_dated. to_datetime_column td pr = Inr pr_dated
        \<and> to_datetime_column td ghi = Inr ghi_dated
        \<and> merged = pd_merge_inner pr_dated ghi_dated)"
  by (auto simp add: merge_frames_def and_then_def split: sum.splits)

text \<open>
  C1 (as amended). Whenever the merge returns, every merged row's Date appears in both
  source frames, and the merged frame has at most \<open>|PR| * |GHI|\<close> rows. When no Date
  occurs twice in the GHI frame the size is at most \<open>|PR|\<close>, when none occurs twice in
  the PR frame it is at most \<open>|GHI|\<close>, and when both hold it is at most
  \<open>min(|PR|, |GHI|)\<close>.
\<close>

theorem merge_inner_join:
  assumes "merge_frames to_datetime pr ghi = Inr merged"
  shows "(\<forall>r\<in>set merged.
            (\<exists>s p. (s, p) \<in> set pr \<and> to_datetime s = Some (Date r))
          \<and> (\<exists>s g. (s, g) \<in> set ghi \<and> to_datetime s = Some (Date r)))
       \<and> length merged \<le> length pr * length ghi
       \<and> (distinct (map (\<lambda>(s, g). to_datetime s) ghi) \<longrightarrow> length merged \<le> length pr)
       \<and> (distinct (map (\<lambda>(s, p). to_datetime s) pr) \<longrightarrow> length merged \<le> length ghi)
       \<and> (distinct (map (\<lambda>(s, p). to_datetime s) pr) \<and> distinct (map (\<lambda>(s, g). to_datetime s) ghi)
            \<longrightarrow> length merged \<le> min (length pr) (length ghi))"
proof -
  from assms obtain pr_dated ghi_dated
    where p: "to_datetime_column to_datetime pr = Inr pr_dated"
      and g: "to_datetime_column to_datetime ghi = Inr ghi_dated"
      and m: "merged = pd_merge_inner pr_dated ghi_dated"
    by (auto simp add: merge_frames_Inr)
  note lp = to_datetime_column_length [OF p] and lg = to_datetime_column_length [OF g]
  have dates: "(\<exists>s p. (s, p) \<in> set pr \<and> to_datetime s = Some (Date r))
          \<and> (\<exists>s g. (s, g) \<in> set ghi \<and> to_datetime s = Some (Date r))"
    if "r \<in> set merged" for r
    using pd_merge_inner_Date [of r pr_dated ghi_dated] that m
      to_datetime_column_mem [OF p] to_datetime_column_mem [OF g] by blast
  have len: "length merged = (\<Sum>x\<leftarrow>pr_dated. length (filter (\<lambda>y. fst y = fst x) ghi_dated))"
    by (simp add: m length_pd_merge_inner)
  have "length merged \<le> length pr_dated * length ghi_dated"
    unfolding len by (rule matches_le_length)
  then have prod: "length merged \<le> length pr * length ghi"
    by (simp only: lp lg)
  have left: "length merged \<le> length pr" if "distinct (map (\<lambda>(s, g). to_datetime s) ghi)"
  proof -
    have "length merged \<le> length pr_dated"
      unfolding len by (rule matches_le_left [OF to_datetime_column_distinct [OF g that]])
    then show ?thesis by (simp only: lp)
  qed
  have right: "length merged \<le> length ghi" if "distinct (map (\<lambda>(s, p). to_datetime s) pr)"
  proof -
    have "length merged = (\<Sum>y\<leftarrow>ghi_dated. length (filter (\<lambda>x. fst x = fst y) pr_dated))"
      using len matches_swap [where xs = pr_dated and ys = ghi_dated] by (rule trans)
    also have "\<dots> \<le> length ghi_dated"
      by (rule matches_le_left [OF to_datetime_column_distinct [OF p that]])
    finally show ?thesis by (simp only: lg)
  qed
  from dates prod left right show ?thesis by simp
qed

theorem merge_inner_join_witness:
  "merge_frames example_dates pr_unique ghi_unique = Inr [\<lparr>Date = 18262 * ns_per_day, GHI = 5, PR = 75\<rparr>]
   \<and> distinct (map (\<lambda>(s, p). example_dates s) pr_unique)
   \<and> distinct (map (\<lambda>(s, g). example_dates s) ghi_unique)
   \<and> length [\<lparr>Date = 18262 * ns_per_day, GHI = 5, PR = 75\<rparr>] \<le> min (length pr_unique) (length ghi_unique)
   \<and> example_dates ''2020-01-01'' = Some (18262 * ns_per_day)"
proof -
  have m: "merge_frames example_dates pr_unique ghi_unique = Inr [\<lparr>Date = 18262 * ns_per_day, GHI = 5, PR = 75\<rparr>]"
    by (simp add: merge_frames_def and_then_def pd_merge_inner_def pr_unique_def ghi_unique_def
        example_dates_def ns_per_day_def)
  have d: "distinct (map (\<lambda>(s, p). example_dates s) pr_unique)"
    "distinct (map (\<lambda>(s, g). example_dates s) ghi_unique)"
    by (simp_all add: pr_unique_def ghi_unique_def example_dates_def ns_per_day_def)
  from merge_inner_join [OF m] d show ?thesis
    using m by (simp add: example_dates_def)
qed

text \<open>
  The size bound of the claim as stated fails when a date occurs twice in both inputs:
  two PR rows and two GHI rows of one date give four merged rows.
\<close>

theorem merge_size_counterexample:
  "pr_twice \<noteq> [] \<and> ghi_twice \<noteq> []
   \<and> merge_frames example_dates pr_twice ghi_twice =
      Inr [\<lparr>Date = 18262 * ns_per_day, GHI = 5, PR = 75\<rparr>, \<lparr>Date = 18262 * ns_per_day, GHI = 6, PR = 75\<rparr>,
           \<lparr>Date = 18262 * ns_per_day, GHI = 5, PR = 70\<rparr>, \<lparr>Date = 18262 * ns_per_day, GHI = 6, PR = 70\<rparr>]
   \<and> \<not> (4 \<le> min (length pr_twice) (length ghi_twice))"
  by (simp add: merge_frames_def and_then_def pd_merge_inner_def pr_twice_def ghi_twice_def
        example_dates_def)

subsection \<open>Yearly statistics\<close>

lemma set_unique [simp]: "set (unique xs) = set xs"
  by (induction xs rule: unique.induct) auto

lemma distinct_unique [simp]: "distinct (unique xs)"
  by (induction xs rule: unique.induct) auto

lemma unique_sorted_id: "sorted xs \<Longrightarrow> sorted (unique xs)"
proof (induction xs rule: unique.induct)
  case 1
  then show ?case by simp
next
  case (2 x xs)
  then have "sorted (filter (\<lambda>y. y \<noteq> x) xs)" by (simp add: sorted_wrt_filter)
  with 2 show ?case by auto
qed

lemma map_of_dict_set: "map_of (dict_set kvs k v) = (map_of kvs)(k \<mapsto> v)"
  by (induction kvs k v rule: dict_set.induct) (auto simp add: fun_eq_iff)

lemma keys_dict_set:
  "map fst (dict_set kvs k v) = (if k \<in> fst ` set kvs then map fst kvs else map fst kvs @ [k])"
  by (induction kvs k v rule: dict_set.induct) (auto simp add: image_iff)

lemma map_of_yearly_loop:
  "map_of (yearly_loop df ys stats) y =
     (if y \<in> set ys then Some (length (filter (\<lambda>r. year r = y \<and> budget_line r < PR r) df))
      else map_of stats y)"
proof (induction df ys stats rule: yearly_loop.induct)
  case (1 df stats)
  then show ?case by simp
next
  case (2 df y' ys stats)
  have "filter (\<lambda>r. budget_line r < PR r) (filter (\<lambda>r. year r = y') df) =
        filter (\<lambda>r. year r = y' \<and> budget_line r < PR r) df"
    by (simp add: conj_commute)
  with 2 show ?case by (simp add: Let_def map_of_dict_set)
qed

lemma keys_yearly_loop:
  "distinct ys \<Longrightarrow> set ys \<inter> fst ` set stats = {} \<Longrightarrow>
     map fst (yearly_loop df ys stats) = map fst stats @ ys"
proof (induction df ys stats rule: yearly_loop.induct)
  case (1 df stats)
  then show ?case by simp
next
  case (2 df y ys stats)
  let ?c = "length (filter (\<lambda>r. PR r > budget_line r) (filter (\<lambda>r. year r = y) df))"
  from "2.prems" have k: "map fst (dict_set stats y ?c) = map fst stats @ [y]"
    by (auto simp add: keys_dict_set)
  then have "fst ` set (dict_set stats y ?c) = insert y (fst ` set stats)"
    by (metis (no_types, lifting) Un_insert_right list.set(1) list.set(2) set_append set_map sup_bot.right_neutral)
  with "2.prems" have "set ys \<inter> fst ` set (dict_set stats y ?c) = {}" by auto
  with "2.IH" [OF refl refl] "2.prems" k show ?case by (simp add: Let_def)
qed

lemma keys_yearly_stats: "map fst (yearly_stats df) = unique (map year df)"
  using keys_yearly_loop [of "unique (map year df)" "[]" df] by (simp add: yearly_stats_def)

lemma map_of_yearly_stats:
  "map_of (yearly_stats df) y =
     (if y \<in> year ` set df then Some (length (filter (\<lambda>r. year r = y \<and> budget_line r < PR r) df))
      else None)"
  by (simp add: yearly_stats_def map_of_yearly_loop)

lemma year_derive_columns: "r \<in> set (derive_columns df) \<Longrightarrow> year r = dt_year (Date r)"
  using derive_columns_row [of r df] by (auto simp add: derive_row_def Let_def)

lemma map_year_derive_columns: "map year (derive_columns df) = map (\<lambda>r. dt_year (Date r)) df"
proof -
  have "map year (derive_columns df) = map (\<lambda>r. dt_year (Date r)) (derive_columns df)"
    by (intro map_cong refl year_derive_columns)
  also have "\<dots> = map dt_year (map Date (derive_columns df))"
    by (simp only: map_map comp_def)
  finally show ?thesis by (simp add: comp_def)
qed

lemma year_lines_render [simp]: "year_lines (stats_text (render df)) = yearly_stats (derive_columns df)"
  by (simp add: render_def Let_def)

lemma create_visualization_unfiltered:
  "create_visualization to_datetime df None None = Inr (render df)"
  by (simp add: create_visualization_def date_filter_def truthy_def and_then_def)

text \<open>
  C5. Yearly budget-exceedance counting groups the rows by the calendar year of Date
  and gives, for each year that has a row, the number of that year's rows with PR
  strictly greater than budget_line; a year with no rows has no entry. The rows
  (PR 80, budget 75, 2020), (PR 70, budget 75, 2020), (PR 90, budget 60, 2021) yield
  \<open>{2020: 1, 2021: 1}\<close>.
\<close>

theorem yearly_exceedance_counts:
  assumes "create_visualization to_datetime df start_date end_date = Inr v"
  shows "(\<forall>r\<in>set (frame v). year r = dt_year (Date r))
       \<and> year_lines (stats_text v) = yearly_stats (frame v)
       \<and> distinct (map fst (yearly_stats (frame v)))
       \<and> map_of (yearly_stats (frame v)) y =
           (if y \<in> year ` set (frame v)
            then Some (length (filter (\<lambda>r. year r = y \<and> budget_line r < PR r) (frame v)))
            else None)
       \<and> yearly_stats exceedance_rows = [(2020, 1), (2021, 1)]"
proof -
  from assms obtain df1 where v: "v = render df1"
    by (auto simp add: create_visualization_Inr)
  have ex: "yearly_stats exceedance_rows = [(2020, 1), (2021, 1)]"
    by (simp add: yearly_stats_def exceedance_rows_def Let_def)
  have yr: "\<forall>r\<in>set (frame v). year r = dt_year (Date r)"
    by (simp add: v year_derive_columns)
  have ln: "year_lines (stats_text v) = yearly_stats (frame v)"
    by (simp add: v)
  have ds: "distinct (map fst (yearly_stats (frame v)))"
    by (simp only: keys_yearly_stats distinct_unique)
  from ex yr ln ds map_of_yearly_stats [of "frame v" y] show ?thesis by blast
qed

theorem yearly_exceedance_counts_witness:
  "create_visualization (\<lambda>s. None) two_rows None None = Inr (render two_rows)
   \<and> map year (frame (render two_rows)) = [1971, 1970]
   \<and> map_of (year_lines (stats_text (render two_rows))) 2000 = None
   \<and> yearly_stats exceedance_rows = [(2020, 1), (2021, 1)]"
proof -
  have c: "create_visualization (\<lambda>s. None) two_rows None None = Inr (render two_rows)"
    by (simp add: create_visualization_def date_filter_def truthy_def and_then_def)
  have y: "map year (frame (render two_rows)) = [dt_year (366 * ns_per_day), dt_year 0]"
    by (simp add: map_year_derive_columns two_rows_def)
  have d: "dt_year (366 * ns_per_day) = 1971" "dt_year 0 = 1970"
    by code_simp+
  from y d have y': "map year (frame (render two_rows)) = [1971, 1970]" by simp
  have "year ` set (frame (render two_rows)) = set (map year (frame (render two_rows)))"
    by (simp only: set_map)
  then have s: "year ` set (frame (render two_rows)) = {1971, 1970}"
    by (simp only: y' list.set)
  from yearly_exceedance_counts [OF c, of 2000]
  have "year_lines (stats_text (render two_rows)) = yearly_stats (frame (render two_rows))"
    and "map_of (yearly_stats (frame (render two_rows))) 2000 =
           (if 2000 \<in> year ` set (frame (render two_rows))
            then Some (length (filter (\<lambda>r. year r = 2000 \<and> budget_line r < PR r) (frame (render two_rows))))
            else None)"
    and e: "yearly_stats exceedance_rows = [(2020, 1), (2021, 1)]"
    by blast+
  then have "map_of (year_lines (stats_text (render two_rows))) 2000 = None"
    by (simp only: s) simp
  with c y' e show ?thesis by blast
qed

text \<open>The calendar year does not decrease with the timestamp.\<close>

lemma div_1460_step: "0 \<le> a \<Longrightarrow> a \<le> b \<Longrightarrow> b div 1460 - a div 1460 \<le> b - a" for a b :: int
  by linarith

lemma yoe_numerator_mono:
  fixes a b :: int
  assumes "0 \<le> a" and "a \<le> b" and "b \<le> 146096"
  shows "a - a div 1460 + a div 36524 - a div 146096 \<le> b - b div 1460 + b div 36524 - b div 146096"
proof (cases "b < 146096")
  case True
  then have "a div 146096 = 0" "b div 146096 = 0" using assms by simp_all
  moreover have "a div 36524 \<le> b div 36524" using assms by (simp add: zdiv_mono1)
  moreover have "b div 1460 - a div 1460 \<le> b - a" using assms by (intro div_1460_step)
  ultimately show ?thesis by linarith
next
  case False
  with assms have b: "b = 146096" by simp
  show ?thesis
  proof (cases "a = b")
    case True
    then show ?thesis by simp
  next
    case False
    with assms b have "a < 146096" by simp
    with assms(1) have "a - a div 1460 + a div 36524 - a div 146096 \<le> 145999" by linarith
    then show ?thesis by (simp add: b)
  qed
qed

lemma yoe_of_mono: "0 \<le> a \<Longrightarrow> a \<le> b \<Longrightarrow> b \<le> 146096 \<Longrightarrow> yoe_of a \<le> yoe_of b"
  unfolding yoe_of_def by (intro zdiv_mono1 yoe_numerator_mono) simp_all

lemma yoe_of_bounds:
  assumes "0 \<le> a" and "a \<le> 146096"
  shows "0 \<le> yoe_of a \<and> yoe_of a \<le> 399"
proof -
  define f where "f = a - a div 1460 + a div 36524 - a div 146096"
  have "0 \<le> f \<and> f \<le> 145999"
  proof (cases "a = 146096")
    case True
    then show ?thesis by (simp add: f_def)
  next
    case False
    with assms have "a < 146096" by simp
    with assms(1) show ?thesis unfolding f_def by linarith
  qed
  then have "0 \<le> f div 365 \<and> f div 365 \<le> 399" by linarith
  then show ?thesis by (simp add: yoe_of_def f_def)
qed

lemma year_of_era_between: "yoe_of a \<le> year_of_era a \<and> year_of_era a \<le> yoe_of a + 1"
  by (simp add: year_of_era_def Let_def)

lemma year_of_era_mono:
  assumes "0 \<le> a" and "a \<le> b" and "b \<le> 146096"
  shows "year_of_era a \<le> year_of_era b"
proof (cases "yoe_of a = yoe_of b")
  case True
  define c where "c = 365 * yoe_of b + yoe_of b div 4 - yoe_of b div 100"
  have "(5 * (a - c) + 2) div 153 \<le> (5 * (b - c) + 2) div 153"
    using assms(2) by (intro zdiv_mono1) simp_all
  then show ?thesis
    by (simp add: year_of_era_def Let_def True c_def)
next
  case False
  with yoe_of_mono [OF assms] have "yoe_of a + 1 \<le> yoe_of b" by simp
  with year_of_era_between [of a] year_of_era_between [of b] show ?thesis by linarith
qed

lemma year_of_era_bounds:
  "0 \<le> a \<Longrightarrow> a \<le> 146096 \<Longrightarrow> 0 \<le> year_of_era a \<and> year_of_era a \<le> 400"
  using yoe_of_bounds [of a] year_of_era_between [of a] by linarith

lemma year_of_days_mono:
  assumes "d1 \<le> d2"
  shows "year_of_days d1 \<le> year_of_days d2"
proof -
  define z1 where "z1 = d1 + 719468"
  define z2 where "z2 = d2 + 719468"
  have z: "z1 \<le> z2" using assms by (simp add: z1_def z2_def)
  have m1: "0 \<le> z1 mod 146097" "z1 mod 146097 \<le> 146096" by simp_all
  have m2: "0 \<le> z2 mod 146097" "z2 mod 146097 \<le> 146096" by simp_all
  have e: "z1 div 146097 \<le> z2 div 146097" using z by (simp add: zdiv_mono1)
  have "year_of_era (z1 mod 146097) + z1 div 146097 * 400
      \<le> year_of_era (z2 mod 146097) + z2 div 146097 * 400"
  proof (cases "z1 div 146097 = z2 div 146097")
    case True
    have "z1 mod 146097 \<le> z2 mod 146097"
      using z True by (metis add_le_cancel_left mult_div_mod_eq)
    from year_of_era_mono [OF m1(1) this m2(2)] True show ?thesis by simp
  next
    case False
    with e have "z1 div 146097 + 1 \<le> z2 div 146097" by simp
    with year_of_era_bounds [OF m1] year_of_era_bounds [OF m2] show ?thesis by linarith
  qed
  then show ?thesis by (simp add: year_of_days_def Let_def z1_def z2_def)
qed

lemma dt_year_mono: "t1 \<le> t2 \<Longrightarrow> dt_year t1 \<le> dt_year t2"
  unfolding dt_year_def by (intro year_of_days_mono zdiv_mono1) (simp_all add: ns_per_day_def)

lemma sorted_map_dt_year: "sorted ts \<Longrightarrow> sorted (map dt_year ts)"
  by (induction ts) (auto simp add: dt_year_mono)

text \<open>
  C8 (as amended). The summary text box lists the per-year counts once per year, in the
  order in which the years first appear in the rows of the frame; the list is ascending
  by year when the rows of the frame are in ascending Date order.
\<close>

theorem year_lines_first_appearance:
  assumes "create_visualization to_datetime df start_date end_date = Inr v"
  shows "map fst (year_lines (stats_text v)) = unique (map (\<lambda>r. dt_year (Date r)) (frame v))
       \<and> distinct (map fst (year_lines (stats_text v)))
       \<and> set (map fst (year_lines (stats_text v))) = (\<lambda>r. dt_year (Date r)) ` set (frame v)
       \<and> (sorted (map Date (frame v)) \<longrightarrow> sorted (map fst (year_lines (stats_text v))))"
proof -
  from assms obtain df1 where v: "v = render df1"
    by (auto simp add: create_visualization_Inr)
  have y: "map year (frame v) = map (\<lambda>r. dt_year (Date r)) (frame v)"
    by (intro map_cong refl) (simp add: v year_derive_columns)
  have "map fst (year_lines (stats_text v)) = unique (map year (frame v))"
    by (simp add: v keys_yearly_stats)
  then have k: "map fst (year_lines (stats_text v)) = unique (map (\<lambda>r. dt_year (Date r)) (frame v))"
    by (simp only: y)
  have "sorted (map (\<lambda>r. dt_year (Date r)) (frame v))" if "sorted (map Date (frame v))"
    using sorted_map_dt_year [OF that] by (simp add: comp_def)
  then show ?thesis unfolding k by (simp add: unique_sorted_id)
qed

theorem year_lines_first_appearance_witness:
  "create_visualization (\<lambda>s. None) ascending_rows None None = Inr (render ascending_rows)
   \<and> sorted (map Date (frame (render ascending_rows)))
   \<and> map fst (year_lines (stats_text (render ascending_rows))) = [2020, 2021]"
proof -
  have c: "create_visualization (\<lambda>s. None) ascending_rows None None = Inr (render ascending_rows)"
    by (rule create_visualization_unfiltered)
  have d: "dt_year (18262 * ns_per_day) = 2020" "dt_year (18628 * ns_per_day) = 2021"
    by code_simp+
  have f: "map Date (frame (render ascending_rows)) = [18262 * ns_per_day, 18628 * ns_per_day]"
    by (simp add: ascending_rows_def)
  then have s: "sorted (map Date (frame (render ascending_rows)))"
    by (simp add: ns_per_day_def)
  have "map (\<lambda>r. dt_year (Date r)) (frame (render ascending_rows)) =
        map dt_year (map Date (frame (render ascending_rows)))"
    by (simp only: map_map comp_def)
  then have y: "map (\<lambda>r. dt_year (Date r)) (frame (render ascending_rows)) = [2020, 2021]"
    by (simp only: f) (simp add: d)
  from year_lines_first_appearance [OF c]
  have "map fst (year_lines (stats_text (render ascending_rows))) =
        unique (map (\<lambda>r. dt_year (Date r)) (frame (render ascending_rows)))"
    by blast
  then have "map fst (year_lines (stats_text (render ascending_rows))) = [2020, 2021]"
    by (simp only: y) simp
  with c s show ?thesis by blast
qed

text \<open>
  A frame whose first row is of 2021 and whose second row is of 2020 (the merge keeps the
  order of the PR files, which need not be the order of the dates): the text box lists
  2021 before 2020.
\<close>

theorem year_lines_order_counterexample:
  "create_visualization (\<lambda>s. None) unsorted_rows None None = Inr (render unsorted_rows)
   \<and> map fst (year_lines (stats_text (render unsorted_rows))) = [2021, 2020]
   \<and> \<not> sorted (map fst (year_lines (stats_text (render unsorted_rows))))"
proof -
  have d: "dt_year (18262 * ns_per_day) = 2020" "dt_year (18628 * ns_per_day) = 2021"
    by code_simp+
  have y: "map year (derive_columns unsorted_rows) = [2021, 2020]"
    by (simp add: map_year_derive_columns unsorted_rows_def d)
  have "map fst (year_lines (stats_text (render unsorted_rows))) = [2021, 2020]"
    by (simp add: keys_yearly_stats y)
  then show ?thesis by (simp add: create_visualization_unfiltered)
qed

subsection \<open>Trailing averages\<close>

lemma example_dates_simps:
  "example_dates ''2020-01-01'' = Some (18262 * ns_per_day)"
  "example_dates ''2020-06-01'' = Some (18414 * ns_per_day)"
  "example_dates ''2021-01-01'' = Some (18628 * ns_per_day)"
  by (simp_all add: example_dates_def)

lemma last_n_days_eq:
  "last_n_days n df =
     (if df = [] then []
      else filter (\<lambda>r. Max (Date ` set df) - n * ns_per_day < Date r) df)"
  by (simp add: last_n_days_def series_max_Max timedelta_days_def)

lemma latest_row_in_range:
  assumes "df \<noteq> []" and "0 < n"
  shows "\<exists>r. r \<in> set (last_n_days n df) \<and> Date r = Max (Date ` set df)"
proof -
  have "Max (Date ` set df) \<in> Date ` set df"
    using assms(1) by (intro Max_in) simp_all
  then obtain r where r: "r \<in> set df" "Date r = Max (Date ` set df)" by auto
  have "0 < n * ns_per_day" using assms(2) by (simp add: ns_per_day_def)
  with r assms(1) show ?thesis by (auto simp add: last_n_days_eq)
qed

lemma last_n_days_empty_iff:
  assumes "0 < n"
  shows "last_n_days n df = [] \<longleftrightarrow> df = []"
proof
  assume "last_n_days n df = []"
  then show "df = []"
    using latest_row_in_range [of df n] assms by (cases "df = []") auto
next
  assume "df = []"
  then show "last_n_days n df = []" by (simp add: last_n_days_eq)
qed

lemma trailing_avg_eq:
  "trailing_avg n df =
     (if last_n_days n df = [] then None
      else Some (sum_list (map PR (last_n_days n df)) / real (length (last_n_days n df))))"
  by (simp add: trailing_avg_def series_mean_def)

lemma stats_text_render:
  "avg_7_day (stats_text (render df)) = trailing_avg 7 (derive_columns df)"
  "avg_30_day (stats_text (render df)) = trailing_avg 30 (derive_columns df)"
  "avg_60_day (stats_text (render df)) = trailing_avg 60 (derive_columns df)"
  by (simp_all add: render_def Let_def)

text \<open>
  C6. Whenever the date filter has returned, the call returns (no exception), and each
  trailing n-day average of the text box (n = 7, 30, 60) is the arithmetic mean of PR
  over the rows with Date strictly greater than \<open>L - n\<close> days, \<open>L\<close> the maximum Date
  of the series; for a series with rows the row at \<open>L\<close> is among them; when no row is in
  the range (the series is empty) the average is the undefined marker NaN, here
  \<open>None\<close>: not zero, and not an exception.
\<close>

theorem trailing_averages:
  assumes "date_filter to_datetime df start_date end_date = Inr df1"
  shows "\<exists>v. create_visualization to_datetime df start_date end_date = Inr v
           \<and> map Date (frame v) = map Date df1 \<and> map PR (frame v) = map PR df1
           \<and> avg_7_day (stats_text v) = trailing_avg 7 (frame v)
           \<and> avg_30_day (stats_text v) = trailing_avg 30 (frame v)
           \<and> avg_60_day (stats_text v) = trailing_avg 60 (frame v)
           \<and> (\<forall>n. last_n_days n (frame v) =
                  (if frame v = [] then []
                   else filter (\<lambda>r. Max (Date ` set (frame v)) - n * ns_per_day < Date r) (frame v)))
           \<and> (\<forall>n. 0 < n \<and> frame v \<noteq> [] \<longrightarrow>
                  (\<exists>r. r \<in> set (last_n_days n (frame v)) \<and> Date r = Max (Date ` set (frame v))))
           \<and> (\<forall>n. trailing_avg n (frame v) =
                  (if last_n_days n (frame v) = [] then None
                   else Some (sum_list (map PR (last_n_days n (frame v)))
                              / real (length (last_n_days n (frame v))))))
           \<and> (frame v = [] \<longrightarrow> avg_7_day (stats_text v) = None
                  \<and> avg_30_day (stats_text v) = None \<and> avg_60_day (stats_text v) = None)"
proof -
  let ?v = "render df1"
  have c: "create_visualization to_datetime df start_date end_date = Inr ?v"
    using assms by (simp add: create_visualization_def and_then_def)
  have e: "frame ?v = [] \<longrightarrow> avg_7_day (stats_text ?v) = None
      \<and> avg_30_day (stats_text ?v) = None \<and> avg_60_day (stats_text ?v) = None"
    by (simp add: stats_text_render trailing_avg_eq last_n_days_eq)
  have a: "avg_7_day (stats_text ?v) = trailing_avg 7 (frame ?v)"
    "avg_30_day (stats_text ?v) = trailing_avg 30 (frame ?v)"
    "avg_60_day (stats_text ?v) = trailing_avg 60 (frame ?v)"
    by (simp_all add: stats_text_render)
  have m: "map Date (frame ?v) = map Date df1" "map PR (frame ?v) = map PR df1"
    by simp_all
  from c m a e last_n_days_eq [of _ "frame ?v"] latest_row_in_range [of "frame ?v"]
    trailing_avg_eq [of _ "frame ?v"]
  show ?thesis by blast
qed

theorem trailing_averages_witness:
  "date_filter example_dates three_dates (Some ''2021-01-01'') (Some ''2020-01-01'') = Inr []
   \<and> (\<exists>v. create_visualization example_dates three_dates (Some ''2021-01-01'') (Some ''2020-01-01'') = Inr v
          \<and> frame v = []
          \<and> avg_7_day (stats_text v) = None
          \<and> avg_30_day (stats_text v) = None
          \<and> avg_60_day (stats_text v) = None)"
proof -
  have d: "date_filter example_dates three_dates (Some ''2021-01-01'') (Some ''2020-01-01'') = Inr []"
    by (simp add: date_filter_def truthy_def and_then_def example_dates_simps three_dates_def
        ns_per_day_def)
  have "\<exists>v. create_visualization example_dates three_dates (Some ''2021-01-01'') (Some ''2020-01-01'') = Inr v
          \<and> frame v = []
          \<and> avg_7_day (stats_text v) = None
          \<and> avg_30_day (stats_text v) = None
          \<and> avg_60_day (stats_text v) = None"
    by (rule ex_forward [OF trailing_averages [OF d]]) (simp add: trailing_avg_eq last_n_days_eq)
  with d show ?thesis by simp
qed

subsection \<open>Date filter\<close>

lemma date_filter_range:
  assumes "s \<noteq> []" and "e \<noteq> []" and "to_datetime s = Some sd" and "to_datetime e = Some ed"
  shows "date_filter to_datetime df (Some s) (Some e) =
           Inr (filter (\<lambda>r. sd \<le> Date r \<and> Date r \<le> ed) df)"
proof -
  have "filter (\<lambda>r. Date r \<le> ed) (filter (\<lambda>r. sd \<le> Date r) df) =
        filter (\<lambda>r. sd \<le> Date r \<and> Date r \<le> ed) df"
    by (simp add: conj_commute)
  with assms show ?thesis by (simp add: date_filter_def truthy_def and_then_def)
qed

lemma map_pair_eq:
  assumes "map f xs = map f' ys" and "map g xs = map g' ys"
  shows "map (\<lambda>r. (f r, g r)) xs = map (\<lambda>r. (f' r, g' r)) ys"
proof -
  have "length xs = length ys" using assms(1) by (rule map_eq_imp_length_eq)
  then show ?thesis using assms by (induction xs ys rule: list_induct2) auto
qed

lemma Date_PR_derive_columns:
  "map (\<lambda>r. (Date r, PR r)) (derive_columns df) = map (\<lambda>r. (Date r, PR r)) df"
  by (rule map_pair_eq) simp_all

lemma derive_columns_empty_iff [simp]: "derive_columns df = [] \<longleftrightarrow> df = []"
  using length_derive_columns [of df] by (metis length_0_conv)

lemma PR_of_filtered_by_Date:
  "map PR (filter (\<lambda>r. P (Date r)) df) =
     map snd (filter (\<lambda>p. P (fst p)) (map (\<lambda>r. (Date r, PR r)) df))"
  by (induction df) auto

lemma trailing_avg_derive_columns:
  "trailing_avg n (derive_columns df) =
     (if df = [] then None
      else series_mean (map PR (filter (\<lambda>r. Max (Date ` set df) - n * ns_per_day < Date r) df)))"
proof (cases "df = []")
  case True
  then show ?thesis by (simp add: trailing_avg_def last_n_days_eq series_mean_def)
next
  case False
  have s: "Date ` set (derive_columns df) = Date ` set df"
    using map_Date_derive_columns [of df] by (metis set_map)
  have "map PR (filter (\<lambda>r. Max (Date ` set df) - n * ns_per_day < Date r) (derive_columns df)) =
        map PR (filter (\<lambda>r. Max (Date ` set df) - n * ns_per_day < Date r) df)"
    by (simp only: PR_of_filtered_by_Date [where P = "\<lambda>d. Max (Date ` set df) - n * ns_per_day < d"]
        Date_PR_derive_columns)
  with False s show ?thesis by (simp add: trailing_avg_def last_n_days_eq)
qed

text \<open>
  C7. When an inclusive date range \<open>[start_date, end_date]\<close> is supplied, the call
  equals the call without a range on the rows of that range: the rolling mean runs over
  the PR values of the filtered rows, \<open>d0\<close> of the budget line is the minimum Date of
  the filtered rows, and the trailing averages are means over filtered rows only, within
  \<open>n\<close> days of the maximum Date of the filtered rows.
\<close>

theorem filter_before_derivation:
  assumes "s \<noteq> []" and "e \<noteq> []" and "to_datetime s = Some sd" and "to_datetime e = Some ed"
  shows "\<exists>sub v. sub = filter (\<lambda>r. sd \<le> Date r \<and> Date r \<le> ed) df
           \<and> create_visualization to_datetime df (Some s) (Some e) = Inr v
           \<and> create_visualization to_datetime sub None None = Inr v
           \<and> map Date (frame v) = map Date sub
           \<and> map PR_30MA (frame v) = rolling_mean_centered 30 (map PR sub)
           \<and> (\<forall>r\<in>set (frame v).
                 days_from_start r = (Date r - Min (Date ` set sub)) div ns_per_day
               \<and> budget_line r = budget (real_of_int (days_from_start r) / 365.25))
           \<and> (\<forall>n. n \<in> {7, 30, 60} \<longrightarrow>
                 trailing_avg n (frame v) =
                   (if sub = [] then None
                    else series_mean (map PR (filter (\<lambda>r. Max (Date ` set sub) - n * ns_per_day < Date r) sub))))
           \<and> avg_7_day (stats_text v) = trailing_avg 7 (frame v)
           \<and> avg_30_day (stats_text v) = trailing_avg 30 (frame v)
           \<and> avg_60_day (stats_text v) = trailing_avg 60 (frame v)"
proof -
  let ?sub = "filter (\<lambda>r. sd \<le> Date r \<and> Date r \<le> ed) df"
  let ?v = "render ?sub"
  have c: "create_visualization to_datetime df (Some s) (Some e) = Inr ?v"
    using date_filter_range [OF assms, of df] by (simp add: create_visualization_def and_then_def)
  have u: "create_visualization to_datetime ?sub None None = Inr ?v"
    by (rule create_visualization_unfiltered)
  have d: "map Date (frame ?v) = map Date ?sub" by simp
  have ma: "map PR_30MA (frame ?v) = rolling_mean_centered 30 (map PR ?sub)"
    by (simp add: map_PR_30MA_derive_columns)
  have rows: "days_from_start r = (Date r - Min (Date ` set ?sub)) div ns_per_day
      \<and> budget_line r = budget (real_of_int (days_from_start r) / 365.25)"
    if "r \<in> set (frame ?v)" for r
  proof -
    from that obtain m a where "r = derive_row (Min (Date ` set ?sub)) m a"
      using derive_columns_row [of r ?sub] by auto
    then show ?thesis by (simp add: derive_row_def Let_def)
  qed
  have t: "trailing_avg n (frame ?v) =
      (if ?sub = [] then None
       else series_mean (map PR (filter (\<lambda>r. Max (Date ` set ?sub) - n * ns_per_day < Date r) ?sub)))"
    for n
    by (simp only: frame_render trailing_avg_derive_columns)
  have a: "avg_7_day (stats_text ?v) = trailing_avg 7 (frame ?v)"
    "avg_30_day (stats_text ?v) = trailing_avg 30 (frame ?v)"
    "avg_60_day (stats_text ?v) = trailing_avg 60 (frame ?v)"
    by (simp_all add: stats_text_render)
  from c u d ma rows t a show ?thesis by blast
qed

theorem filter_before_derivation_witness:
  "example_dates ''2020-01-01'' = Some (18262 * ns_per_day)
   \<and> example_dates ''2020-06-01'' = Some (18414 * ns_per_day)
   \<and> filter (\<lambda>r. 18262 * ns_per_day \<le> Date r \<and> Date r \<le> 18414 * ns_per_day) three_dates
       = take 2 three_dates
   \<and> create_visualization example_dates three_dates (Some ''2020-01-01'') (Some ''2020-06-01'')
       = create_visualization example_dates (take 2 three_dates) None None
   \<and> create_visualization example_dates three_dates (Some ''2020-01-01'') (Some ''2020-06-01'')
       = Inr (render (take 2 three_dates))"
proof -
  have f: "filter (\<lambda>r. 18262 * ns_per_day \<le> Date r \<and> Date r \<le> 18414 * ns_per_day) three_dates
       = take 2 three_dates"
    by (simp add: three_dates_def ns_per_day_def)
  have n: "''2020-01-01'' \<noteq> []" "''2020-06-01'' \<noteq> []" by simp_all
  from filter_before_derivation [OF n example_dates_simps(1) example_dates_simps(2), of three_dates]
  have "create_visualization example_dates three_dates (Some ''2020-01-01'') (Some ''2020-06-01'')
       = create_visualization example_dates (take 2 three_dates) None None"
    unfolding f by auto
  with f example_dates_simps show ?thesis
    by (simp add: create_visualization_unfiltered)
qed

subsection \<open>Determinism of the merge\<close>

lemma sort_mset_eq: "mset xs = mset ys \<Longrightarrow> sort xs = sort ys"
  by (rule properties_for_sort) simp_all

text \<open>
  C9. Merging is deterministic. In the embedding the merged frame is a function of the
  files read, so the one thing that can differ between two runs on identical PR and GHI
  inputs is the order in which glob lists the files. It has no influence: two runs over
  the same files, listed in any two orders, give identical results, the same rows in the
  same order (or the same exception).
\<close>

theorem process_data_deterministic:
  assumes "mset glob_pr' = mset glob_pr" and "mset glob_ghi' = mset glob_ghi"
  shows "process_data read_csv to_datetime glob_pr' glob_ghi' =
         process_data read_csv to_datetime glob_pr glob_ghi"
  using sort_mset_eq [OF assms(1)] sort_mset_eq [OF assms(2)]
  by (simp add: process_data_def)

theorem process_data_deterministic_witness:
  "mset [''PR/2020/b.csv'', ''PR/2020/a.csv''] = mset [''PR/2020/a.csv'', ''PR/2020/b.csv'']
   \<and> process_data example_files example_dates [''PR/2020/b.csv'', ''PR/2020/a.csv''] [''GHI/2020/a.csv'']
       = process_data example_files example_dates [''PR/2020/a.csv'', ''PR/2020/b.csv''] [''GHI/2020/a.csv'']
   \<and> process_data example_files example_dates [''PR/2020/a.csv'', ''PR/2020/b.csv''] [''GHI/2020/a.csv'']
       = Inr [\<lparr>Date = 18262 * ns_per_day, GHI = 5, PR = 75\<rparr>,
              \<lparr>Date = 18414 * ns_per_day, GHI = 3, PR = 70\<rparr>]"
proof -
  have m: "mset [''PR/2020/b.csv'', ''PR/2020/a.csv''] = mset [''PR/2020/a.csv'', ''PR/2020/b.csv'']"
    by simp
  have s: "sort [''PR/2020/a.csv'', ''PR/2020/b.csv''] = [''PR/2020/a.csv'', ''PR/2020/b.csv'']"
    "sort [''GHI/2020/a.csv''] = [''GHI/2020/a.csv'']"
    by code_simp+
  have r: "process_data example_files example_dates [''PR/2020/a.csv'', ''PR/2020/b.csv''] [''GHI/2020/a.csv'']
       = Inr [\<lparr>Date = 18262 * ns_per_day, GHI = 5, PR = 75\<rparr>,
              \<lparr>Date = 18414 * ns_per_day, GHI = 3, PR = 70\<rparr>]"
    unfolding process_data_def s
    by (simp add: example_files_def and_then_def pd_concat_def merge_frames_def
        example_dates_simps pd_merge_inner_def ns_per_day_def)
  from process_data_deterministic [OF m refl, of example_files example_dates "[''GHI/2020/a.csv'']"] m r
  show ?thesis by simp
qed

subsection \<open>Empty file lists\<close>

lemma read_files_all_readable:
  "\<forall>f\<in>set files. \<exists>rows. read_csv f = Inr rows \<Longrightarrow>
     \<exists>frames. read_files read_csv files = Inr frames \<and> length frames = length files"
  by (induction files) auto

text \<open>
  C10. When either folder yields no matching CSV file (as a folder that does not exist
  does), \<open>process_data\<close> raises instead of returning an empty frame, and \<open>main\<close> ends
  with that exception before the CSV snapshot is written: no artifact is produced. The
  exception is the ValueError of concatenating an empty list when the PR folder is the
  empty one, and also when the GHI folder is and every PR file could be read.
\<close>

theorem empty_file_list_raises:
  assumes "glob_pr = [] \<or> glob_ghi = []"
  shows "(\<exists>e. process_data read_csv to_datetime glob_pr glob_ghi = Inl e
             \<and> main read_csv to_datetime glob_pr glob_ghi = (Some e, []))
       \<and> (glob_pr = [] \<longrightarrow> process_data read_csv to_datetime glob_pr glob_ghi = Inl ValueError)
       \<and> (glob_ghi = [] \<and> (\<forall>f\<in>set glob_pr. \<exists>rows. read_csv f = Inr rows) \<longrightarrow>
             process_data read_csv to_datetime glob_pr glob_ghi = Inl ValueError)"
proof -
  have pr: "process_data read_csv to_datetime glob_pr glob_ghi = Inl ValueError" if "glob_pr = []"
    using that by (simp add: process_data_def and_then_def pd_concat_def)
  have ghi: "\<exists>e. process_data read_csv to_datetime glob_pr glob_ghi = Inl e" if "glob_ghi = []"
    using that by (simp add: process_data_def and_then_def pd_concat_def split: sum.splits)
  have ghi': "process_data read_csv to_datetime glob_pr glob_ghi = Inl ValueError"
    if "glob_ghi = []" and "\<forall>f\<in>set glob_pr. \<exists>rows. read_csv f = Inr rows"
  proof -
    from that(2) have "\<forall>f\<in>set (sort glob_pr). \<exists>rows. read_csv f = Inr rows" by simp
    from read_files_all_readable [OF this] obtain frames
      where "read_files read_csv (sort glob_pr) = Inr frames" by blast
    with that(1) show ?thesis
      by (simp add: process_data_def and_then_def pd_concat_def)
  qed
  from assms pr ghi obtain e where e: "process_data read_csv to_datetime glob_pr glob_ghi = Inl e"
    by blast
  then have "main read_csv to_datetime glob_pr glob_ghi = (Some e, [])"
    by (simp add: main_def)
  with e pr ghi' show ?thesis by blast
qed

theorem empty_file_list_raises_witness:
  "process_data example_files example_dates [] [''GHI/2020/a.csv''] = Inl ValueError
   \<and> main example_files example_dates [] [''GHI/2020/a.csv''] = (Some ValueError, [])
   \<and> process_data example_files example_dates [''PR/2020/a.csv''] [] = Inl ValueError
   \<and> main example_files example_dates [''PR/2020/a.csv''] [] = (Some ValueError, [])"
proof -
  from empty_file_list_raises [of "[]" "[''GHI/2020/a.csv'']" example_files example_dates]
  have a: "process_data example_files example_dates [] [''GHI/2020/a.csv''] = Inl ValueError
      \<and> main example_files example_dates [] [''GHI/2020/a.csv''] = (Some ValueError, [])"
    by auto
  have "\<forall>f\<in>set [''PR/2020/a.csv'']. \<exists>rows. example_files f = Inr rows"
    by (simp add: example_files_def)
  with empty_file_list_raises [of "[''PR/2020/a.csv'']" "[]" example_files example_dates]
  have "process_data example_files example_dates [''PR/2020/a.csv''] [] = Inl ValueError
      \<and> main example_files example_dates [''PR/2020/a.csv''] [] = (Some ValueError, [])"
    by auto
  with a show ?thesis by simp
qed

end
